theory Spec2Isabelle
  imports Complex_Main
begin

section \<open>Numbers and strings of the host language\<close>

text \<open>
  The driver computes with JavaScript numbers. Every quantity it handles (note counts,
  balances, amounts typed into a five character buffer) is an integer far below
  \<open>2^53\<close>, where the arithmetic of doubles is exact, so numbers are modelled as
  \<open>int\<close>. The two places where a non-integer can appear are written out: the result
  of \<open>parseInt\<close> is an \<open>int option\<close> with \<open>None\<close> for NaN, and the quotient
  \<open>amount / totalNotes\<close> is a \<open>jsnum\<close>, an exact rational or one of the special
  values a division by zero gives. The quotient is only ever compared with a count of
  notes, and in this range the rounded quotient lies on the same side of every integer as
  the exact one. Strings are lists of 8-bit characters read as the code units 0..255.
\<close>

datatype jsnum = Fin rat | PosInf | NegInf | NaN

text \<open>\<open>a / b\<close> on two integer-valued numbers.\<close>

definition js_div :: "int \<Rightarrow> int \<Rightarrow> jsnum" where
  "js_div a b =
     (if b = 0 then (if a = 0 then NaN else if 0 < a then PosInf else NegInf)
      else Fin (of_int a / of_int b))"

text \<open>\<open>n < x\<close> for an integer \<open>n\<close>: every comparison with NaN is false.\<close>

fun js_lt :: "int \<Rightarrow> jsnum \<Rightarrow> bool" where
  "js_lt n (Fin q) = (of_int n < q)"
| "js_lt n PosInf = True"
| "js_lt n NegInf = False"
| "js_lt n NaN = False"

text \<open>\<open>a % b\<close>: the remainder of the truncating division, with the sign of \<open>a\<close>.\<close>

definition js_rem :: "int \<Rightarrow> int \<Rightarrow> int" where
  "js_rem a b = sgn a * (\<bar>a\<bar> mod \<bar>b\<bar>)"

text \<open>Number to string, for integers: decimal digits, a minus sign when negative.\<close>

function show_digits :: "int \<Rightarrow> string" where
  "show_digits n =
     (if n < 10 then [''0123456789'' ! nat n]
      else show_digits (n div 10) @ [''0123456789'' ! nat (n mod 10)])"
  by pat_completeness auto
termination
  by (relation "measure nat") auto

declare show_digits.simps [simp del]

definition show_int :: "int \<Rightarrow> string" where
  "show_int i = (if i < 0 then CHR ''-'' # show_digits (- i) else show_digits i)"

text \<open>
  \<open>parseInt(s)\<close> with no radix argument, as ECMAScript defines it: leading white space
  is skipped, one sign is read, a \<open>0x\<close> or \<open>0X\<close> prefix selects radix 16 (radix 10
  otherwise), and the longest run of digits of that radix is the value. No digit at all
  gives NaN. Minus zero is not told apart from zero: the driver only compares the number,
  takes its remainder and prints it, and all three agree on the two zeros.
\<close>

definition isWhiteSpace :: "char \<Rightarrow> bool" where
  "isWhiteSpace c = (of_char c \<in> {9, 10, 11, 12, 13, 32, 160 :: nat})"

definition digitValue :: "char \<Rightarrow> nat option" where
  "digitValue c =
     (let k = (of_char c :: nat) in
      if 48 \<le> k \<and> k \<le> 57 then Some (k - 48)
      else if 97 \<le> k \<and> k \<le> 122 then Some (k - 87)
      else if 65 \<le> k \<and> k \<le> 90 then Some (k - 55)
      else None)"

definition isRadixDigit :: "nat \<Rightarrow> char \<Rightarrow> bool" where
  "isRadixDigit radix c = (case digitValue c of None \<Rightarrow> False | Some v \<Rightarrow> v < radix)"

definition radixValue :: "nat \<Rightarrow> string \<Rightarrow> int" where
  "radixValue radix z =
     foldl (\<lambda>acc c. acc * int radix + (case digitValue c of None \<Rightarrow> 0 | Some v \<Rightarrow> int v)) 0 z"

definition parseInt :: "string \<Rightarrow> int option" where
  "parseInt inputString =
     (let s = dropWhile isWhiteSpace inputString;
          sign = (if take 1 s = ''-'' then - 1 else 1 :: int);
          s = (if take 1 s = ''-'' \<or> take 1 s = ''+'' then drop 1 s else s);
          hex = (take 2 s = ''0x'' \<or> take 2 s = ''0X'');
          radix = (if hex then 16 else 10 :: nat);
          s = (if hex then drop 2 s else s);
          z = takeWhile (isRadixDigit radix) s
      in if z = [] then None else Some (sign * radixValue radix z))"

section \<open>The globals of the driver\<close>

record Notes =
  five :: int
  ten :: int
  twenty :: int

text \<open>
  One record holds the module's variables. \<open>textContent\<close> is the page: the text of
  each element the driver writes to, by element id. \<open>pendingDefault\<close> is the
  \<open>default_message\<close> captured by the callback that \<open>setTimeout\<close> has scheduled; a
  callback is pending exactly while \<open>messageTimerOn\<close> holds.
\<close>

record state =
  messageTimerOn :: bool
  pin :: string
  toWithdraw :: string
  balance :: int
  loginScreen :: bool
  userAmount :: int
  initialBalance :: int
  availableNotes :: Notes
  userNotes :: Notes
  textContent :: "string \<Rightarrow> string"
  pendingDefault :: string

definition overdraftLimit :: int where
  "overdraftLimit = 100"

definition trueBalance :: "state \<Rightarrow> int" where
  "trueBalance s = balance s + overdraftLimit"

section \<open>The display\<close>

definition insertionError :: string where
  "insertionError = ''No more can be inserted!!''"

definition pinToAstrisk :: "state \<Rightarrow> string" where
  "pinToAstrisk s = replicate (length (pin s)) CHR ''*''"

definition pinMessage :: "state \<Rightarrow> string" where
  "pinMessage s = ''Pin: '' @ pinToAstrisk s"

definition withdrawalMessage :: "state \<Rightarrow> string" where
  "withdrawalMessage s =
     (if balance s < 0
      then ''Overdraft: '' @ show_int (userAmount s - initialBalance s) @ '' | Balance: ''
             @ show_int (trueBalance s) @ '' | Amount to withdraw: '' @ toWithdraw s
      else ''Balance: '' @ show_int (trueBalance s) @ '' | Amount to withdraw: ''
             @ toWithdraw s)"

definition setTerminal :: "string \<Rightarrow> state \<Rightarrow> state" where
  "setTerminal message s =
     s\<lparr>textContent := (textContent s)(''terminal-message'' := message)\<rparr>"

text \<open>
  \<open>displayTimedMessage\<close> shows the message and schedules the callback, unless a message
  is already showing; then it does nothing at all. \<open>timerCallback\<close> is the scheduled
  function. The two seconds of the timer are not modelled: the callback is an event that
  may arrive at any moment while it is pending. The driver reports every refusal and every
  success by a call of \<open>displayTimedMessage\<close>; below, to ask for a message is to
  make that call, and the message is shown when no other one is showing.
\<close>

definition displayTimedMessage :: "string \<Rightarrow> string \<Rightarrow> state \<Rightarrow> state" where
  "displayTimedMessage message default_message s =
     (if \<not> messageTimerOn s
      then (setTerminal message (s\<lparr>messageTimerOn := True\<rparr>))\<lparr>pendingDefault := default_message\<rparr>
      else s)"

definition timerCallback :: "state \<Rightarrow> state" where
  "timerCallback s = (setTerminal (pendingDefault s) s)\<lparr>messageTimerOn := False\<rparr>"

section \<open>Typing and deleting\<close>

text \<open>
  The digit is whatever string the page passes; only its length is checked. The write to
  the console is not modelled.
\<close>

definition pinInserter :: "string \<Rightarrow> state \<Rightarrow> state" where
  "pinInserter digit s =
     (if length digit = 1 \<and> length (pin s) < 4 \<and> \<not> messageTimerOn s
      then (let s = s\<lparr>pin := pin s @ digit\<rparr> in setTerminal (pinMessage s) s)
      else displayTimedMessage insertionError (pinMessage s) s)"

definition withdrawalInserter :: "string \<Rightarrow> state \<Rightarrow> state" where
  "withdrawalInserter digit s =
     (if length digit = 1 \<and> length (toWithdraw s) < 5 \<and> \<not> messageTimerOn s
      then (let s = s\<lparr>toWithdraw := toWithdraw s @ digit\<rparr> in setTerminal (withdrawalMessage s) s)
      else displayTimedMessage insertionError (withdrawalMessage s) s)"

definition inputManager :: "string \<Rightarrow> state \<Rightarrow> state" where
  "inputManager digit s = (if loginScreen s then pinInserter digit s else withdrawalInserter digit s)"

definition digitRemover :: "state \<Rightarrow> state" where
  "digitRemover s =
     (let deletionError = ''No more can be deleted!!'' in
      if loginScreen s then
        (if 0 < length (pin s) \<and> \<not> messageTimerOn s
         then (let s = s\<lparr>pin := take (length (pin s) - 1) (pin s)\<rparr> in setTerminal (pinMessage s) s)
         else displayTimedMessage deletionError (pinMessage s) s)
      else
        (if 0 < length (toWithdraw s) \<and> \<not> messageTimerOn s
         then (let s = s\<lparr>toWithdraw := take (length (toWithdraw s) - 1) (toWithdraw s)\<rparr>
               in setTerminal (withdrawalMessage s) s)
         else displayTimedMessage deletionError (withdrawalMessage s) s))"

section \<open>The cash in the machine\<close>

definition calculateTotalRemainingCash :: "state \<Rightarrow> int" where
  "calculateTotalRemainingCash s =
     five (availableNotes s) * 5 + ten (availableNotes s) * 10 + twenty (availableNotes s) * 20"

definition isATMEmpty :: "state \<Rightarrow> bool" where
  "isATMEmpty s = (calculateTotalRemainingCash s = 0)"

definition haveEnoughCash :: "int \<Rightarrow> state \<Rightarrow> bool" where
  "haveEnoughCash to_withdraw s = (to_withdraw \<le> calculateTotalRemainingCash s)"

section \<open>Choosing the notes\<close>

text \<open>
  The locals of \<open>getDenominationsNeeded\<close> that its loops change: the amount still to
  make up, \<open>notesAvailable\<close> and \<open>notesNeeded\<close>. A read of an array past its end
  gives \<open>undefined\<close>, and \<open>undefined > 0\<close> is false; the loop conditions say so with
  \<open>i < length notesAvailable\<close>.
\<close>

type_synonym locals = "int \<times> int list \<times> int list"

function cappedLoop :: "int list \<Rightarrow> jsnum list \<Rightarrow> nat \<Rightarrow> locals \<Rightarrow> locals" where
  "cappedLoop denominations noteLimits i (amount, notesAvailable, notesNeeded) =
     (if i < length notesAvailable \<and> amount \<ge> denominations ! i \<and> notesAvailable ! i > 0
         \<and> js_lt (notesNeeded ! i) (noteLimits ! i)
      then cappedLoop denominations noteLimits i
             (amount - denominations ! i,
              notesAvailable[i := notesAvailable ! i - 1],
              notesNeeded[i := notesNeeded ! i + 1])
      else (amount, notesAvailable, notesNeeded))"
  by pat_completeness auto
termination
  by (relation "measure (\<lambda>(denominations, noteLimits, i, amount, notesAvailable, notesNeeded).
        nat (notesAvailable ! i))") auto

declare cappedLoop.simps [simp del]

function uncappedLoop :: "int list \<Rightarrow> nat \<Rightarrow> locals \<Rightarrow> locals" where
  "uncappedLoop denominations i (amount, notesAvailable, notesNeeded) =
     (if i < length notesAvailable \<and> amount \<ge> denominations ! i \<and> notesAvailable ! i > 0
      then uncappedLoop denominations i
             (amount - denominations ! i,
              notesAvailable[i := notesAvailable ! i - 1],
              notesNeeded[i := notesNeeded ! i + 1])
      else (amount, notesAvailable, notesNeeded))"
  by pat_completeness auto
termination
  by (relation "measure (\<lambda>(denominations, i, amount, notesAvailable, notesNeeded).
        nat (notesAvailable ! i))") auto

declare uncappedLoop.simps [simp del]

text \<open>
  The body of \<open>getDenominationsNeeded\<close> up to the end of the second pass: the two
  \<open>for\<close> loops run the index over \<open>0, 1, 2\<close>.
\<close>

definition allocate :: "int \<Rightarrow> Notes \<Rightarrow> locals" where
  "allocate amount available =
     (let denominations = [20, 10, 5];
          notesAvailable = [twenty available, ten available, five available];
          totalNotes = twenty available + ten available + five available;
          noteLimits = [js_div amount totalNotes, js_div amount totalNotes, js_div amount totalNotes];
          notesNeeded = [0, 0, 0];
          l = fold (cappedLoop denominations noteLimits) [0 ..< length denominations]
                (amount, notesAvailable, notesNeeded)
      in if fst l \<noteq> 0
         then fold (uncappedLoop denominations) [0 ..< length denominations] l
         else l)"

text \<open>What is left of the amount when the loops end; the function itself never looks at it.\<close>

definition remainder :: "int \<Rightarrow> Notes \<Rightarrow> int" where
  "remainder amount available = fst (allocate amount available)"

text \<open>
  \<open>getDenominationsNeeded\<close> writes the counts back to the global and returns the notes
  taken: the result is the pair of the returned notes and the state.
\<close>

definition getDenominationsNeeded :: "int \<Rightarrow> state \<Rightarrow> Notes \<times> state" where
  "getDenominationsNeeded amount s =
     (case allocate amount (availableNotes s) of
        (amount', notesAvailable, notesNeeded) \<Rightarrow>
          (\<lparr>five = notesNeeded ! 2, ten = notesNeeded ! 1, twenty = notesNeeded ! 0\<rparr>,
           s\<lparr>availableNotes :=
               \<lparr>five = notesAvailable ! 2, ten = notesAvailable ! 1, twenty = notesAvailable ! 0\<rparr>\<rparr>))"

section \<open>Withdrawing\<close>

definition updateUserStats :: "Notes \<Rightarrow> state \<Rightarrow> state" where
  "updateUserStats notesWithdrawn s =
     (let totalWithdrawn = five notesWithdrawn * 5 + ten notesWithdrawn * 10 + twenty notesWithdrawn * 20
      in s\<lparr>balance := balance s - totalWithdrawn,
           userAmount := userAmount s + totalWithdrawn,
           userNotes := \<lparr>five = five (userNotes s) + five notesWithdrawn,
                         ten = ten (userNotes s) + ten notesWithdrawn,
                         twenty = twenty (userNotes s) + twenty notesWithdrawn\<rparr>\<rparr>)"

text \<open>The pound sign is the code unit \<open>0xA3\<close>.\<close>

definition updateStatsPanel :: "state \<Rightarrow> state" where
  "updateStatsPanel s =
     s\<lparr>textContent := (textContent s)
         (''twenty-notes'' := CHR 0xA3 # ''20 notes: '' @ show_int (twenty (userNotes s)),
          ''ten-notes'' := CHR 0xA3 # ''10 notes: '' @ show_int (ten (userNotes s)),
          ''five-notes'' := CHR 0xA3 # ''5 notes:  '' @ show_int (five (userNotes s)),
          ''total'' := ''Total:   '' @ show_int (userAmount s))\<rparr>"

definition withdraw :: "int \<Rightarrow> state \<Rightarrow> state" where
  "withdraw amount_to_withdraw s =
     (let trueBalance = balance s + overdraftLimit in
      if 0 < amount_to_withdraw \<and> amount_to_withdraw \<le> trueBalance
      then (case getDenominationsNeeded amount_to_withdraw s of
              (batchOfNotes, s) \<Rightarrow> updateStatsPanel (updateUserStats batchOfNotes s))
      else s)"

section \<open>Confirming\<close>

text \<open>
  \<open>login\<close> asks the remote service, which is outside the program: its answer is an
  input of the model, \<open>Some b\<close> for status 200 with balance \<open>b\<close> and \<open>None\<close> for
  anything else. The balance sent is taken to be an integer. On the withdrawal screen the
  amount is \<open>parseInt(toWithdraw)\<close>; when that is NaN the comparison with the
  available balance is false and the last branch is taken, which is the \<open>None\<close>
  case below.
\<close>

definition login :: "int option \<Rightarrow> state \<Rightarrow> bool \<times> state" where
  "login response s =
     (case response of
        Some currentBalance \<Rightarrow> (True, s\<lparr>balance := currentBalance, initialBalance := currentBalance\<rparr>)
      | None \<Rightarrow> (False, s))"

definition cantDispense :: string where
  "cantDispense = ''Can'' @ [CHR 0x27] @ ''t dispense that denomination!!''"

definition attemptUserInput :: "int option \<Rightarrow> state \<Rightarrow> state" where
  "attemptUserInput response s =
     (if loginScreen s then
        (case login response s of
           (True, s) \<Rightarrow>
             (let s = s\<lparr>loginScreen := False\<rparr>
              in displayTimedMessage ''PIN correct!'' (withdrawalMessage s) s)
         | (False, s) \<Rightarrow>
             (let s = s\<lparr>pin := ''''\<rparr>
              in displayTimedMessage ''PIN incorrect!'' (pinMessage s) s))
      else
        (case parseInt (toWithdraw s) of
           None \<Rightarrow>
             (let s = s\<lparr>toWithdraw := ''''\<rparr>
              in displayTimedMessage ''Not enough in Account!'' (withdrawalMessage s) s)
         | Some castedWithdrawalAmount \<Rightarrow>
             if castedWithdrawalAmount \<le> trueBalance s then
               (let enoughCashPresent = haveEnoughCash castedWithdrawalAmount s in
                if js_rem castedWithdrawalAmount 5 = 0 \<and> enoughCashPresent then
                  (let s = withdraw castedWithdrawalAmount s;
                       s = s\<lparr>toWithdraw := ''''\<rparr>
                   in displayTimedMessage (''Withdrawn: '' @ show_int castedWithdrawalAmount)
                        (withdrawalMessage s) s)
                else if \<not> enoughCashPresent then
                  (let s = s\<lparr>toWithdraw := ''''\<rparr>
                   in displayTimedMessage ''Not enougth notes present!'' (withdrawalMessage s) s)
                else
                  (let s = s\<lparr>toWithdraw := ''''\<rparr>
                   in displayTimedMessage cantDispense (withdrawalMessage s) s))
             else
               (let s = s\<lparr>toWithdraw := ''''\<rparr>
                in displayTimedMessage ''Not enough in Account!'' (withdrawalMessage s) s)))"

section \<open>The machine as a whole\<close>

text \<open>
  The page calls \<open>inputManager\<close>, \<open>digitRemover\<close> and \<open>attemptUserInput\<close>, and the
  timer calls back. \<open>initial\<close> is the module as loaded, on a page with the given texts.
\<close>

datatype event = Digit string | Delete | Enter "int option" | Timeout

fun step :: "event \<Rightarrow> state \<Rightarrow> state" where
  "step (Digit digit) s = inputManager digit s"
| "step Delete s = digitRemover s"
| "step (Enter response) s = attemptUserInput response s"
| "step Timeout s = (if messageTimerOn s then timerCallback s else s)"

definition run :: "event list \<Rightarrow> state \<Rightarrow> state" where
  "run events s = fold step events s"

definition initial :: "(string \<Rightarrow> string) \<Rightarrow> state" where
  "initial page =
     \<lparr>messageTimerOn = False, pin = '''', toWithdraw = '''', balance = 0, loginScreen = True,
      userAmount = 0, initialBalance = 0,
      availableNotes = \<lparr>five = 4, ten = 15, twenty = 7\<rparr>,
      userNotes = \<lparr>five = 0, ten = 0, twenty = 0\<rparr>,
      textContent = page, pendingDefault = ''''\<rparr>"

inductive reachable :: "state \<Rightarrow> bool" where
  start: "reachable (initial page)"
| next_event: "reachable s \<Longrightarrow> reachable (step e s)"

section \<open>Notions used to state the properties\<close>

text \<open>
  The worth of a bundle of notes, the sum that \<open>updateUserStats\<close> and
  \<open>calculateTotalRemainingCash\<close> both compute.
\<close>

definition notesValue :: "Notes \<Rightarrow> int" where
  "notesValue n = five n * 5 + ten n * 10 + twenty n * 20"

text \<open>
  A sequence of calls of \<open>withdraw\<close> in which every call passes the guard of
  \<open>withdraw\<close> and the notes chosen make up the whole amount.
\<close>

fun successfulWithdrawals :: "int list \<Rightarrow> state \<Rightarrow> bool" where
  "successfulWithdrawals [] s = True"
| "successfulWithdrawals (a # as) s =
     (0 < a \<and> a \<le> trueBalance s \<and> remainder a (availableNotes s) = 0
      \<and> successfulWithdrawals as (withdraw a s))"

section \<open>How the note loops change their variables\<close>

lemma cappedLoop_effect:
  "length nd = length av \<Longrightarrow>
   \<exists>k. 0 \<le> k \<and> k \<le> max 0 (av ! i) \<and> (k = 0 \<or> i < length av) \<and>
       cappedLoop ds lims i (a, av, nd) = (a - k * ds ! i, av[i := av ! i - k], nd[i := nd ! i + k])"
proof (induction ds lims i "(a, av, nd)" arbitrary: a av nd rule: cappedLoop.induct)
  case (1 ds lims i a av nd)
  show ?case
  proof (cases "i < length av \<and> ds ! i \<le> a \<and> 0 < av ! i \<and> js_lt (nd ! i) (lims ! i)")
    case True
    have len: "length (nd[i := nd ! i + 1]) = length (av[i := av ! i - 1])"
      using "1.prems" by simp
    from "1.hyps" [OF True len] obtain k where
      k: "0 \<le> k" "k \<le> max 0 (av[i := av ! i - 1] ! i)"
      and eq: "cappedLoop ds lims i (a - ds ! i, av[i := av ! i - 1], nd[i := nd ! i + 1]) =
               (a - ds ! i - k * ds ! i, (av[i := av ! i - 1])[i := av[i := av ! i - 1] ! i - k],
                (nd[i := nd ! i + 1])[i := nd[i := nd ! i + 1] ! i + k])"
      by blast
    have "cappedLoop ds lims i (a, av, nd) =
          (a - (k + 1) * ds ! i, av[i := av ! i - (k + 1)], nd[i := nd ! i + (k + 1)])"
      using True "1.prems" eq by (subst cappedLoop.simps) (simp add: algebra_simps)
    moreover have "k + 1 \<le> max 0 (av ! i)" using True k by simp
    ultimately show ?thesis using k True by (intro exI [of _ "k + 1"]) simp
  next
    case False
    have "cappedLoop ds lims i (a, av, nd) = (a, av, nd)"
      by (subst cappedLoop.simps) (simp only: False if_False)
    then show ?thesis by (intro exI [of _ 0]) simp
  qed
qed

lemma uncappedLoop_effect:
  "length nd = length av \<Longrightarrow>
   \<exists>k. 0 \<le> k \<and> k \<le> max 0 (av ! i) \<and> (k = 0 \<or> i < length av) \<and>
       uncappedLoop ds i (a, av, nd) = (a - k * ds ! i, av[i := av ! i - k], nd[i := nd ! i + k])"
proof (induction ds i "(a, av, nd)" arbitrary: a av nd rule: uncappedLoop.induct)
  case (1 ds i a av nd)
  show ?case
  proof (cases "i < length av \<and> ds ! i \<le> a \<and> 0 < av ! i")
    case True
    have len: "length (nd[i := nd ! i + 1]) = length (av[i := av ! i - 1])"
      using "1.prems" by simp
    from "1.hyps" [OF True len] obtain k where
      k: "0 \<le> k" "k \<le> max 0 (av[i := av ! i - 1] ! i)"
      and eq: "uncappedLoop ds i (a - ds ! i, av[i := av ! i - 1], nd[i := nd ! i + 1]) =
               (a - ds ! i - k * ds ! i, (av[i := av ! i - 1])[i := av[i := av ! i - 1] ! i - k],
                (nd[i := nd ! i + 1])[i := nd[i := nd ! i + 1] ! i + k])"
      by blast
    have "uncappedLoop ds i (a, av, nd) =
          (a - (k + 1) * ds ! i, av[i := av ! i - (k + 1)], nd[i := nd ! i + (k + 1)])"
      using True "1.prems" eq by (subst uncappedLoop.simps) (simp add: algebra_simps)
    moreover have "k + 1 \<le> max 0 (av ! i)" using True k by simp
    ultimately show ?thesis using k True by (intro exI [of _ "k + 1"]) simp
  next
    case False
    have "uncappedLoop ds i (a, av, nd) = (a, av, nd)"
      by (subst uncappedLoop.simps) (simp only: False if_False)
    then show ?thesis by (intro exI [of _ 0]) simp
  qed
qed


lemma upt_3: "[0 ..< length [20, 10, 5 :: int]] = [0, 1, 2]"
  by (simp add: upt_rec)

lemma cappedPass:
  "\<exists>k0 k1 k2. 0 \<le> k0 \<and> k0 \<le> max 0 x0 \<and> 0 \<le> k1 \<and> k1 \<le> max 0 x1 \<and> 0 \<le> k2 \<and> k2 \<le> max 0 x2 \<and>
     fold (cappedLoop [20, 10, 5] lims) [0, 1, 2] (a, [x0, x1, x2], [y0, y1, y2]) =
     (a - k0 * 20 - k1 * 10 - k2 * 5, [x0 - k0, x1 - k1, x2 - k2], [y0 + k0, y1 + k1, y2 + k2])"
proof -
  obtain k0 where k0: "0 \<le> k0" "k0 \<le> max 0 x0"
    "cappedLoop [20, 10, 5] lims 0 (a, [x0, x1, x2], [y0, y1, y2]) =
       (a - k0 * 20, [x0 - k0, x1, x2], [y0 + k0, y1, y2])"
    using cappedLoop_effect [of "[y0, y1, y2]" "[x0, x1, x2]" 0 "[20, 10, 5]" lims a] by auto
  obtain k1 where k1: "0 \<le> k1" "k1 \<le> max 0 x1"
    "cappedLoop [20, 10, 5] lims 1 (a - k0 * 20, [x0 - k0, x1, x2], [y0 + k0, y1, y2]) =
       (a - k0 * 20 - k1 * 10, [x0 - k0, x1 - k1, x2], [y0 + k0, y1 + k1, y2])"
    using cappedLoop_effect [of "[y0 + k0, y1, y2]" "[x0 - k0, x1, x2]" 1 "[20, 10, 5]" lims "a - k0 * 20"]
    by auto
  obtain k2 where k2: "0 \<le> k2" "k2 \<le> max 0 x2"
    "cappedLoop [20, 10, 5] lims 2 (a - k0 * 20 - k1 * 10, [x0 - k0, x1 - k1, x2], [y0 + k0, y1 + k1, y2]) =
       (a - k0 * 20 - k1 * 10 - k2 * 5, [x0 - k0, x1 - k1, x2 - k2], [y0 + k0, y1 + k1, y2 + k2])"
    using cappedLoop_effect [of "[y0 + k0, y1 + k1, y2]" "[x0 - k0, x1 - k1, x2]" 2 "[20, 10, 5]" lims
        "a - k0 * 20 - k1 * 10"]
    by auto
  show ?thesis
    using k0 k1 k2 by (intro exI [of _ k0] exI [of _ k1] exI [of _ k2]) simp
qed

lemma uncappedPass:
  "\<exists>k0 k1 k2. 0 \<le> k0 \<and> k0 \<le> max 0 x0 \<and> 0 \<le> k1 \<and> k1 \<le> max 0 x1 \<and> 0 \<le> k2 \<and> k2 \<le> max 0 x2 \<and>
     fold (uncappedLoop [20, 10, 5]) [0, 1, 2] (a, [x0, x1, x2], [y0, y1, y2]) =
     (a - k0 * 20 - k1 * 10 - k2 * 5, [x0 - k0, x1 - k1, x2 - k2], [y0 + k0, y1 + k1, y2 + k2])"
proof -
  obtain k0 where k0: "0 \<le> k0" "k0 \<le> max 0 x0"
    "uncappedLoop [20, 10, 5] 0 (a, [x0, x1, x2], [y0, y1, y2]) =
       (a - k0 * 20, [x0 - k0, x1, x2], [y0 + k0, y1, y2])"
    using uncappedLoop_effect [of "[y0, y1, y2]" "[x0, x1, x2]" 0 "[20, 10, 5]" a] by auto
  obtain k1 where k1: "0 \<le> k1" "k1 \<le> max 0 x1"
    "uncappedLoop [20, 10, 5] 1 (a - k0 * 20, [x0 - k0, x1, x2], [y0 + k0, y1, y2]) =
       (a - k0 * 20 - k1 * 10, [x0 - k0, x1 - k1, x2], [y0 + k0, y1 + k1, y2])"
    using uncappedLoop_effect [of "[y0 + k0, y1, y2]" "[x0 - k0, x1, x2]" 1 "[20, 10, 5]" "a - k0 * 20"]
    by auto
  obtain k2 where k2: "0 \<le> k2" "k2 \<le> max 0 x2"
    "uncappedLoop [20, 10, 5] 2 (a - k0 * 20 - k1 * 10, [x0 - k0, x1 - k1, x2], [y0 + k0, y1 + k1, y2]) =
       (a - k0 * 20 - k1 * 10 - k2 * 5, [x0 - k0, x1 - k1, x2 - k2], [y0 + k0, y1 + k1, y2 + k2])"
    using uncappedLoop_effect [of "[y0 + k0, y1 + k1, y2]" "[x0 - k0, x1 - k1, x2]" 2 "[20, 10, 5]"
        "a - k0 * 20 - k1 * 10"]
    by auto
  show ?thesis
    using k0 k1 k2 by (intro exI [of _ k0] exI [of _ k1] exI [of _ k2]) simp
qed

lemma allocate_shape:
  "\<exists>n0 n1 n2. 0 \<le> n0 \<and> n0 \<le> max 0 (twenty av) \<and> 0 \<le> n1 \<and> n1 \<le> max 0 (ten av)
       \<and> 0 \<le> n2 \<and> n2 \<le> max 0 (five av) \<and>
     allocate a av =
       (a - n0 * 20 - n1 * 10 - n2 * 5, [twenty av - n0, ten av - n1, five av - n2], [n0, n1, n2])"
proof -
  define lims where "lims = [js_div a (twenty av + ten av + five av),
    js_div a (twenty av + ten av + five av), js_div a (twenty av + ten av + five av)]"
  define P where "P = fold (cappedLoop [20, 10, 5] lims) [0, 1, 2] (a, [twenty av, ten av, five av], [0, 0, 0])"
  have unf: "allocate a av = (if fst P \<noteq> 0 then fold (uncappedLoop [20, 10, 5]) [0, 1, 2] P else P)"
    by (simp only: allocate_def Let_def upt_3 lims_def P_def)
  obtain k0 k1 k2 where k: "0 \<le> k0" "k0 \<le> max 0 (twenty av)" "0 \<le> k1" "k1 \<le> max 0 (ten av)"
      "0 \<le> k2" "k2 \<le> max 0 (five av)"
    and p1: "P = (a - k0 * 20 - k1 * 10 - k2 * 5, [twenty av - k0, ten av - k1, five av - k2], [k0, k1, k2])"
    unfolding P_def using cappedPass [of "twenty av" "ten av" "five av" lims a 0 0 0] by auto
  obtain j0 j1 j2 where j: "0 \<le> j0" "j0 \<le> max 0 (twenty av - k0)" "0 \<le> j1" "j1 \<le> max 0 (ten av - k1)"
      "0 \<le> j2" "j2 \<le> max 0 (five av - k2)"
    and p2: "fold (uncappedLoop [20, 10, 5]) [0, 1, 2] P =
       (a - k0 * 20 - k1 * 10 - k2 * 5 - j0 * 20 - j1 * 10 - j2 * 5,
        [twenty av - k0 - j0, ten av - k1 - j1, five av - k2 - j2], [k0 + j0, k1 + j1, k2 + j2])"
    unfolding p1 using uncappedPass [of "twenty av - k0" "ten av - k1" "five av - k2"
        "a - k0 * 20 - k1 * 10 - k2 * 5" k0 k1 k2] by blast
  show ?thesis
  proof (cases "fst P = 0")
    case True
    then have "allocate a av = P" by (simp add: unf)
    then show ?thesis unfolding p1 using k by blast
  next
    case False
    then have "allocate a av = fold (uncappedLoop [20, 10, 5]) [0, 1, 2] P"
      by (simp add: unf del: fold_simps)
    then have "allocate a av =
      (a - (k0 + j0) * 20 - (k1 + j1) * 10 - (k2 + j2) * 5,
       [twenty av - (k0 + j0), ten av - (k1 + j1), five av - (k2 + j2)], [k0 + j0, k1 + j1, k2 + j2])"
      unfolding p2 by (simp add: algebra_simps)
    moreover have "0 \<le> k0 + j0" "k0 + j0 \<le> max 0 (twenty av)" "0 \<le> k1 + j1" "k1 + j1 \<le> max 0 (ten av)"
      "0 \<le> k2 + j2" "k2 + j2 \<le> max 0 (five av)"
      using k j by auto
    ultimately show ?thesis by blast
  qed
qed

lemma denominations_least: "i < 3 \<Longrightarrow> (5 :: int) \<le> [20, 10, 5] ! i"
proof -
  assume "i < 3"
  then have "i = 0 \<or> i = 1 \<or> i = 2" by arith
  then show ?thesis by auto
qed

lemma cappedLoop_small:
  "a < 5 \<Longrightarrow> i < 3 \<Longrightarrow> cappedLoop [20, 10, 5] lims i (a, av, nd) = (a, av, nd)"
  using denominations_least [of i] by (subst cappedLoop.simps) simp

lemma uncappedLoop_small:
  "a < 5 \<Longrightarrow> i < 3 \<Longrightarrow> uncappedLoop [20, 10, 5] i (a, av, nd) = (a, av, nd)"
  using denominations_least [of i] by (subst uncappedLoop.simps) simp

lemma allocate_small: "a < 5 \<Longrightarrow> allocate a av = (a, [twenty av, ten av, five av], [0, 0, 0])"
  by (simp add: allocate_def Let_def upt_3 cappedLoop_small uncappedLoop_small)

lemma remainder_small: "a < 5 \<Longrightarrow> remainder a av = a"
  by (simp add: remainder_def allocate_small)


subsection \<open>What a withdrawal changes\<close>

lemma setTerminal_fields [simp]:
  "messageTimerOn (setTerminal m s) = messageTimerOn s"
  "pin (setTerminal m s) = pin s"
  "toWithdraw (setTerminal m s) = toWithdraw s"
  "balance (setTerminal m s) = balance s"
  "loginScreen (setTerminal m s) = loginScreen s"
  "userAmount (setTerminal m s) = userAmount s"
  "initialBalance (setTerminal m s) = initialBalance s"
  "availableNotes (setTerminal m s) = availableNotes s"
  "userNotes (setTerminal m s) = userNotes s"
  "textContent (setTerminal m s) ''terminal-message'' = m"
  by (simp_all add: setTerminal_def)

lemma displayTimedMessage_fields [simp]:
  "pin (displayTimedMessage m d s) = pin s"
  "toWithdraw (displayTimedMessage m d s) = toWithdraw s"
  "balance (displayTimedMessage m d s) = balance s"
  "loginScreen (displayTimedMessage m d s) = loginScreen s"
  "userAmount (displayTimedMessage m d s) = userAmount s"
  "initialBalance (displayTimedMessage m d s) = initialBalance s"
  "availableNotes (displayTimedMessage m d s) = availableNotes s"
  "userNotes (displayTimedMessage m d s) = userNotes s"
  by (simp_all add: displayTimedMessage_def)

lemma displayTimedMessage_shows:
  "\<not> messageTimerOn s \<Longrightarrow> textContent (displayTimedMessage m d s) ''terminal-message'' = m"
  by (simp add: displayTimedMessage_def)

lemma timerCallback_fields [simp]:
  "pin (timerCallback s) = pin s"
  "toWithdraw (timerCallback s) = toWithdraw s"
  "balance (timerCallback s) = balance s"
  "loginScreen (timerCallback s) = loginScreen s"
  "userAmount (timerCallback s) = userAmount s"
  "initialBalance (timerCallback s) = initialBalance s"
  "availableNotes (timerCallback s) = availableNotes s"
  "userNotes (timerCallback s) = userNotes s"
  by (simp_all add: timerCallback_def)

lemma calculateTotalRemainingCash_cong:
  "availableNotes s' = availableNotes s \<Longrightarrow>
   calculateTotalRemainingCash s' = calculateTotalRemainingCash s"
  by (simp add: calculateTotalRemainingCash_def)

lemma withdraw_fields [simp]:
  "messageTimerOn (withdraw a s) = messageTimerOn s"
  "pin (withdraw a s) = pin s"
  "toWithdraw (withdraw a s) = toWithdraw s"
  "loginScreen (withdraw a s) = loginScreen s"
  "initialBalance (withdraw a s) = initialBalance s"
  "pendingDefault (withdraw a s) = pendingDefault s"
  by (simp_all add: withdraw_def getDenominationsNeeded_def updateUserStats_def
      updateStatsPanel_def Let_def split: prod.splits)

lemma withdraw_refused:
  "\<not> (0 < a \<and> a \<le> balance s + overdraftLimit) \<Longrightarrow> withdraw a s = s"
  by (auto simp: withdraw_def)

lemma withdraw_effect:
  "\<exists>n0 n1 n2.
     0 \<le> n0 \<and> n0 \<le> max 0 (twenty (availableNotes s)) \<and>
     0 \<le> n1 \<and> n1 \<le> max 0 (ten (availableNotes s)) \<and>
     0 \<le> n2 \<and> n2 \<le> max 0 (five (availableNotes s)) \<and>
     twenty (availableNotes (withdraw a s)) = twenty (availableNotes s) - n0 \<and>
     ten (availableNotes (withdraw a s)) = ten (availableNotes s) - n1 \<and>
     five (availableNotes (withdraw a s)) = five (availableNotes s) - n2 \<and>
     twenty (userNotes (withdraw a s)) = twenty (userNotes s) + n0 \<and>
     ten (userNotes (withdraw a s)) = ten (userNotes s) + n1 \<and>
     five (userNotes (withdraw a s)) = five (userNotes s) + n2 \<and>
     balance (withdraw a s) = balance s - (n2 * 5 + n1 * 10 + n0 * 20) \<and>
     userAmount (withdraw a s) = userAmount s + (n2 * 5 + n1 * 10 + n0 * 20) \<and>
     (if 0 < a \<and> a \<le> balance s + overdraftLimit
      then n2 * 5 + n1 * 10 + n0 * 20 = a - remainder a (availableNotes s)
      else n0 = 0 \<and> n1 = 0 \<and> n2 = 0)"
proof (cases "0 < a \<and> a \<le> balance s + overdraftLimit")
  case True
  obtain n0 n1 n2 where n: "0 \<le> n0" "n0 \<le> max 0 (twenty (availableNotes s))"
      "0 \<le> n1" "n1 \<le> max 0 (ten (availableNotes s))"
      "0 \<le> n2" "n2 \<le> max 0 (five (availableNotes s))"
    and al: "allocate a (availableNotes s) =
      (a - n0 * 20 - n1 * 10 - n2 * 5,
       [twenty (availableNotes s) - n0, ten (availableNotes s) - n1, five (availableNotes s) - n2],
       [n0, n1, n2])"
    using allocate_shape [of "availableNotes s" a] by blast
  have "twenty (availableNotes (withdraw a s)) = twenty (availableNotes s) - n0"
    "ten (availableNotes (withdraw a s)) = ten (availableNotes s) - n1"
    "five (availableNotes (withdraw a s)) = five (availableNotes s) - n2"
    "twenty (userNotes (withdraw a s)) = twenty (userNotes s) + n0"
    "ten (userNotes (withdraw a s)) = ten (userNotes s) + n1"
    "five (userNotes (withdraw a s)) = five (userNotes s) + n2"
    "balance (withdraw a s) = balance s - (n2 * 5 + n1 * 10 + n0 * 20)"
    "userAmount (withdraw a s) = userAmount s + (n2 * 5 + n1 * 10 + n0 * 20)"
    using True by (simp_all add: withdraw_def getDenominationsNeeded_def al updateUserStats_def
        updateStatsPanel_def Let_def)
  moreover have "n2 * 5 + n1 * 10 + n0 * 20 = a - remainder a (availableNotes s)"
    by (simp add: remainder_def al)
  ultimately show ?thesis using n True by (intro exI [of _ n0] exI [of _ n1] exI [of _ n2]) simp
next
  case False
  then have "withdraw a s = s" by (rule withdraw_refused)
  then show ?thesis using False by (intro exI [of _ 0]) auto
qed

lemma withdraw_conserves:
  "calculateTotalRemainingCash s - calculateTotalRemainingCash (withdraw a s)
     = userAmount (withdraw a s) - userAmount s"
  using withdraw_effect [of s a] by (auto simp: calculateTotalRemainingCash_def)

lemma withdraw_composed:
  "0 < a \<Longrightarrow> a \<le> trueBalance s \<Longrightarrow>
   userAmount (withdraw a s) = userAmount s + (a - remainder a (availableNotes s))"
  using withdraw_effect [of s a] by (auto simp: trueBalance_def)

lemma withdraw_stats:
  "userAmount s = notesValue (userNotes s) \<Longrightarrow>
   userAmount (withdraw a s) = notesValue (userNotes (withdraw a s))"
  using withdraw_effect [of s a] by (auto simp: notesValue_def)

lemma withdraw_nonneg:
  "0 \<le> twenty (availableNotes s) \<Longrightarrow> 0 \<le> ten (availableNotes s) \<Longrightarrow> 0 \<le> five (availableNotes s) \<Longrightarrow>
   0 \<le> twenty (availableNotes (withdraw a s)) \<and> 0 \<le> ten (availableNotes (withdraw a s))
     \<and> 0 \<le> five (availableNotes (withdraw a s))"
  using withdraw_effect [of s a] by auto


lemma getDenominationsNeeded_effect:
  "\<exists>n0 n1 n2.
     0 \<le> n0 \<and> n0 \<le> max 0 (twenty (availableNotes s)) \<and>
     0 \<le> n1 \<and> n1 \<le> max 0 (ten (availableNotes s)) \<and>
     0 \<le> n2 \<and> n2 \<le> max 0 (five (availableNotes s)) \<and>
     getDenominationsNeeded a s =
       (\<lparr>five = n2, ten = n1, twenty = n0\<rparr>,
        s\<lparr>availableNotes := \<lparr>five = five (availableNotes s) - n2, ten = ten (availableNotes s) - n1,
                              twenty = twenty (availableNotes s) - n0\<rparr>\<rparr>) \<and>
     remainder a (availableNotes s) = a - n0 * 20 - n1 * 10 - n2 * 5"
proof -
  obtain n0 n1 n2 where n: "0 \<le> n0" "n0 \<le> max 0 (twenty (availableNotes s))"
      "0 \<le> n1" "n1 \<le> max 0 (ten (availableNotes s))"
      "0 \<le> n2" "n2 \<le> max 0 (five (availableNotes s))"
    and al: "allocate a (availableNotes s) =
      (a - n0 * 20 - n1 * 10 - n2 * 5,
       [twenty (availableNotes s) - n0, ten (availableNotes s) - n1, five (availableNotes s) - n2],
       [n0, n1, n2])"
    using allocate_shape [of "availableNotes s" a] by blast
  have "getDenominationsNeeded a s =
       (\<lparr>five = n2, ten = n1, twenty = n0\<rparr>,
        s\<lparr>availableNotes := \<lparr>five = five (availableNotes s) - n2, ten = ten (availableNotes s) - n1,
                              twenty = twenty (availableNotes s) - n0\<rparr>\<rparr>)"
    by (simp add: getDenominationsNeeded_def al)
  moreover have "remainder a (availableNotes s) = a - n0 * 20 - n1 * 10 - n2 * 5"
    by (simp add: remainder_def al)
  ultimately show ?thesis using n by blast
qed

subsection \<open>What a confirmation does\<close>

lemma js_rem_5: "js_rem a 5 = 0 \<longleftrightarrow> 5 dvd a"
proof -
  have "\<bar>a\<bar> mod 5 = 0 \<longleftrightarrow> 5 dvd a" by presburger
  moreover have "sgn a = 0 \<longrightarrow> 5 dvd a" by (simp add: sgn_if split: if_splits)
  ultimately show ?thesis by (auto simp: js_rem_def)
qed

lemma confirm_NaN:
  "\<not> loginScreen s \<Longrightarrow> parseInt (toWithdraw s) = None \<Longrightarrow>
   attemptUserInput r s =
     displayTimedMessage ''Not enough in Account!'' (withdrawalMessage (s\<lparr>toWithdraw := ''''\<rparr>))
       (s\<lparr>toWithdraw := ''''\<rparr>)"
  by (simp add: attemptUserInput_def Let_def)

lemma confirm_over:
  "\<not> loginScreen s \<Longrightarrow> parseInt (toWithdraw s) = Some a \<Longrightarrow> \<not> a \<le> trueBalance s \<Longrightarrow>
   attemptUserInput r s =
     displayTimedMessage ''Not enough in Account!'' (withdrawalMessage (s\<lparr>toWithdraw := ''''\<rparr>))
       (s\<lparr>toWithdraw := ''''\<rparr>)"
  by (simp add: attemptUserInput_def Let_def)

lemma confirm_withdraw:
  "\<not> loginScreen s \<Longrightarrow> parseInt (toWithdraw s) = Some a \<Longrightarrow> a \<le> trueBalance s \<Longrightarrow>
   5 dvd a \<Longrightarrow> haveEnoughCash a s \<Longrightarrow>
   attemptUserInput r s =
     displayTimedMessage (''Withdrawn: '' @ show_int a)
       (withdrawalMessage ((withdraw a s)\<lparr>toWithdraw := ''''\<rparr>)) ((withdraw a s)\<lparr>toWithdraw := ''''\<rparr>)"
  by (simp add: attemptUserInput_def js_rem_5 Let_def)

lemma confirm_no_cash:
  "\<not> loginScreen s \<Longrightarrow> parseInt (toWithdraw s) = Some a \<Longrightarrow> a \<le> trueBalance s \<Longrightarrow>
   \<not> haveEnoughCash a s \<Longrightarrow>
   attemptUserInput r s =
     displayTimedMessage ''Not enougth notes present!'' (withdrawalMessage (s\<lparr>toWithdraw := ''''\<rparr>))
       (s\<lparr>toWithdraw := ''''\<rparr>)"
  by (simp add: attemptUserInput_def Let_def)

lemma confirm_not_divisible:
  "\<not> loginScreen s \<Longrightarrow> parseInt (toWithdraw s) = Some a \<Longrightarrow> a \<le> trueBalance s \<Longrightarrow>
   haveEnoughCash a s \<Longrightarrow> \<not> 5 dvd a \<Longrightarrow>
   attemptUserInput r s =
     displayTimedMessage cantDispense (withdrawalMessage (s\<lparr>toWithdraw := ''''\<rparr>))
       (s\<lparr>toWithdraw := ''''\<rparr>)"
  by (simp add: attemptUserInput_def js_rem_5 Let_def)

lemma confirm_shape:
  assumes "\<not> loginScreen s"
  shows "\<exists>a m d. attemptUserInput r s = displayTimedMessage m d ((withdraw a s)\<lparr>toWithdraw := ''''\<rparr>)"
proof -
  have w0: "withdraw 0 s = s" by (simp add: withdraw_refused)
  show ?thesis
  proof (cases "parseInt (toWithdraw s)")
    case None
    from confirm_NaN [OF assms None, of r] show ?thesis using w0 by metis
  next
    case (Some a)
    show ?thesis
    proof (cases "a \<le> trueBalance s")
      case False
      from confirm_over [OF assms Some False, of r] show ?thesis using w0 by metis
    next
      case le: True
      show ?thesis
      proof (cases "haveEnoughCash a s")
        case False
        from confirm_no_cash [OF assms Some le False, of r] show ?thesis using w0 by metis
      next
        case cash: True
        show ?thesis
        proof (cases "5 dvd a")
          case True
          from confirm_withdraw [OF assms Some le True cash, of r] show ?thesis by blast
        next
          case False
          from confirm_not_divisible [OF assms Some le cash False, of r] show ?thesis using w0 by metis
        qed
      qed
    qed
  qed
qed

lemma login_shape:
  assumes "loginScreen s"
  shows "(\<exists>b m d. attemptUserInput r s =
            displayTimedMessage m d (s\<lparr>balance := b, initialBalance := b, loginScreen := False\<rparr>))
         \<or> (\<exists>m d. attemptUserInput r s = displayTimedMessage m d (s\<lparr>pin := ''''\<rparr>))"
proof (cases r)
  case None
  then have "attemptUserInput r s =
      displayTimedMessage ''PIN incorrect!'' (pinMessage (s\<lparr>pin := ''''\<rparr>)) (s\<lparr>pin := ''''\<rparr>)"
    using assms by (simp add: attemptUserInput_def login_def Let_def)
  then show ?thesis by blast
next
  case (Some b)
  then have "attemptUserInput r s =
      displayTimedMessage ''PIN correct!''
        (withdrawalMessage (s\<lparr>balance := b, initialBalance := b, loginScreen := False\<rparr>))
        (s\<lparr>balance := b, initialBalance := b, loginScreen := False\<rparr>)"
    using assms by (simp add: attemptUserInput_def login_def Let_def)
  then show ?thesis by blast
qed

subsection \<open>Invariants of the machine\<close>

lemma step_buffers:
  assumes "length (pin s) \<le> 4" "length (toWithdraw s) \<le> 5"
  shows "length (pin (step e s)) \<le> 4 \<and> length (toWithdraw (step e s)) \<le> 5"
proof (cases e)
  case (Digit digit)
  then show ?thesis using assms
    by (auto simp: inputManager_def pinInserter_def withdrawalInserter_def Let_def)
next
  case Delete
  then show ?thesis using assms by (auto simp: digitRemover_def Let_def)
next
  case (Enter r)
  show ?thesis
  proof (cases "loginScreen s")
    case True
    from login_shape [OF True, of r] show ?thesis using assms Enter by auto
  next
    case False
    from confirm_shape [OF False, of r] show ?thesis using assms Enter by auto
  qed
next
  case Timeout
  then show ?thesis using assms by simp
qed

lemma step_stats:
  assumes "userAmount s = notesValue (userNotes s)"
  shows "userAmount (step e s) = notesValue (userNotes (step e s))"
proof (cases e)
  case (Digit digit)
  then show ?thesis using assms
    by (auto simp: inputManager_def pinInserter_def withdrawalInserter_def Let_def)
next
  case Delete
  then show ?thesis using assms by (auto simp: digitRemover_def Let_def)
next
  case (Enter r)
  show ?thesis
  proof (cases "loginScreen s")
    case True
    from login_shape [OF True, of r] show ?thesis using assms Enter by auto
  next
    case False
    from confirm_shape [OF False, of r] obtain a m d where
      "attemptUserInput r s = displayTimedMessage m d ((withdraw a s)\<lparr>toWithdraw := ''''\<rparr>)" by blast
    then show ?thesis using withdraw_stats [OF assms, of a] Enter by simp
  qed
next
  case Timeout
  then show ?thesis using assms by simp
qed

lemma step_nonneg:
  assumes "0 \<le> twenty (availableNotes s)" "0 \<le> ten (availableNotes s)" "0 \<le> five (availableNotes s)"
  shows "0 \<le> twenty (availableNotes (step e s)) \<and> 0 \<le> ten (availableNotes (step e s))
     \<and> 0 \<le> five (availableNotes (step e s))"
proof (cases e)
  case (Digit digit)
  then show ?thesis using assms
    by (auto simp: inputManager_def pinInserter_def withdrawalInserter_def Let_def)
next
  case Delete
  then show ?thesis using assms by (auto simp: digitRemover_def Let_def)
next
  case (Enter r)
  show ?thesis
  proof (cases "loginScreen s")
    case True
    from login_shape [OF True, of r] show ?thesis using assms Enter by auto
  next
    case False
    from confirm_shape [OF False, of r] obtain a m d where
      "attemptUserInput r s = displayTimedMessage m d ((withdraw a s)\<lparr>toWithdraw := ''''\<rparr>)" by blast
    then show ?thesis using withdraw_nonneg [OF assms, of a] Enter by simp
  qed
next
  case Timeout
  then show ?thesis using assms by simp
qed

lemma reachable_buffers: "reachable s \<Longrightarrow> length (pin s) \<le> 4 \<and> length (toWithdraw s) \<le> 5"
proof (induction rule: reachable.induct)
  case (start page)
  show ?case by (simp add: initial_def)
next
  case (next_event s e)
  then show ?case using step_buffers [of s e] by blast
qed

lemma reachable_stats: "reachable s \<Longrightarrow> userAmount s = notesValue (userNotes s)"
proof (induction rule: reachable.induct)
  case (start page)
  show ?case by (simp add: initial_def notesValue_def)
next
  case (next_event s e)
  then show ?case using step_stats [of s e] by blast
qed

lemma reachable_nonneg:
  "reachable s \<Longrightarrow>
   0 \<le> twenty (availableNotes s) \<and> 0 \<le> ten (availableNotes s) \<and> 0 \<le> five (availableNotes s)"
proof (induction rule: reachable.induct)
  case (start page)
  show ?case by (simp add: initial_def)
next
  case (next_event s e)
  then show ?case using step_nonneg [of s e] by blast
qed

lemma reachable_run: "reachable s \<Longrightarrow> reachable (run events s)"
proof (induction events arbitrary: s)
  case Nil
  then show ?case by (simp add: run_def)
next
  case (Cons e events)
  from Cons.prems have "reachable (step e s)" by (rule reachable.next_event)
  then have "reachable (run events (step e s))" by (rule Cons.IH)
  then show ?case by (simp add: run_def)
qed


lemmas eval_defs =
  run_def initial_def attemptUserInput_def login_def displayTimedMessage_def setTerminal_def
  timerCallback_def inputManager_def withdrawalInserter_def pinInserter_def digitRemover_def
  withdrawalMessage_def pinMessage_def pinToAstrisk_def trueBalance_def overdraftLimit_def
  parseInt_def isWhiteSpace_def isRadixDigit_def digitValue_def radixValue_def haveEnoughCash_def
  calculateTotalRemainingCash_def js_rem_def withdraw_def getDenominationsNeeded_def allocate_def
  remainder_def js_div_def upt_rec cappedLoop.simps uncappedLoop.simps updateUserStats_def
  updateStatsPanel_def show_int_def show_digits.simps cantDispense_def insertionError_def
  notesValue_def Let_def

section \<open>The allocator on a failed composition\<close>

text \<open>
  C1. The claim: whenever the two passes leave a non-zero remainder, the inventory after
  the call equals the inventory before it. The function has no failure outcome and no
  roll-back: it always writes the decremented counts back. On the stock of the fresh
  machine a request of 275 takes every twenty, eleven tens and every five, leaves a
  remainder of 5, and the inventory is written back as four tens.
\<close>

theorem allocation_rollback_counterexample:
  "remainder 275 (availableNotes (initial (\<lambda>_. ''''))) = 5
   \<and> fst (getDenominationsNeeded 275 (initial (\<lambda>_. ''''))) = \<lparr>five = 4, ten = 11, twenty = 7\<rparr>
   \<and> availableNotes (snd (getDenominationsNeeded 275 (initial (\<lambda>_. '''')))) = \<lparr>five = 0, ten = 4, twenty = 0\<rparr>
   \<and> availableNotes (snd (getDenominationsNeeded 275 (initial (\<lambda>_. ''''))))
       \<noteq> availableNotes (initial (\<lambda>_. ''''))"
  by (simp add: eval_defs)

text \<open>
  C1 as amended: when the full amount is not composed, the notes that were taken stay
  taken. The inventory after the call is the inventory before it less the returned
  bundle, denomination by denomination, nothing else of the state changes, and the cash
  in the machine drops by the part of the amount that was composed.
\<close>

theorem failed_allocation_is_committed:
  assumes "remainder amount (availableNotes s) \<noteq> 0"
    and "getDenominationsNeeded amount s = (bundle, s')"
  shows "five (availableNotes s') = five (availableNotes s) - five bundle
     \<and> ten (availableNotes s') = ten (availableNotes s) - ten bundle
     \<and> twenty (availableNotes s') = twenty (availableNotes s) - twenty bundle
     \<and> s' = s\<lparr>availableNotes := availableNotes s'\<rparr>
     \<and> notesValue bundle = amount - remainder amount (availableNotes s)
     \<and> calculateTotalRemainingCash s' =
         calculateTotalRemainingCash s - (amount - remainder amount (availableNotes s))"
  using getDenominationsNeeded_effect [of s amount] assms(2)
  by (auto simp: notesValue_def calculateTotalRemainingCash_def)

theorem failed_allocation_is_committed_witness:
  "remainder 30 (availableNotes ((initial (\<lambda>_. ''''))\<lparr>availableNotes := \<lparr>five = 0, ten = 0, twenty = 7\<rparr>\<rparr>)) \<noteq> 0
   \<and> notesValue (fst (getDenominationsNeeded 30
        ((initial (\<lambda>_. ''''))\<lparr>availableNotes := \<lparr>five = 0, ten = 0, twenty = 7\<rparr>\<rparr>))) = 20
   \<and> calculateTotalRemainingCash (snd (getDenominationsNeeded 30
        ((initial (\<lambda>_. ''''))\<lparr>availableNotes := \<lparr>five = 0, ten = 0, twenty = 7\<rparr>\<rparr>))) = 120"
proof -
  define s where "s = (initial (\<lambda>_. ''''))\<lparr>availableNotes := \<lparr>five = 0, ten = 0, twenty = 7\<rparr>\<rparr>"
  have r: "remainder 30 (availableNotes s) = 10" by (simp add: s_def eval_defs)
  have t: "calculateTotalRemainingCash s = 140" by (simp add: s_def eval_defs)
  have h: "remainder 30 (availableNotes s) \<noteq> 0" unfolding r by simp
  from failed_allocation_is_committed [OF h surjective_pairing]
  have "notesValue (fst (getDenominationsNeeded 30 s)) = 30 - remainder 30 (availableNotes s)"
    and "calculateTotalRemainingCash (snd (getDenominationsNeeded 30 s)) =
         calculateTotalRemainingCash s - (30 - remainder 30 (availableNotes s))"
    by blast+
  then have "notesValue (fst (getDenominationsNeeded 30 s)) = 20"
    and "calculateTotalRemainingCash (snd (getDenominationsNeeded 30 s)) = 120"
    unfolding r t by simp_all
  with h show ?thesis unfolding s_def by blast
qed

section \<open>Scenario A\<close>

text \<open>
  C3. The claim: from the stock five 4, ten 15, twenty 7 a request of 100 returns five
  twenties. The limit is \<open>100 / 26\<close>, which four notes reach, so the first pass stops
  at four twenties and goes on to the tens.
\<close>

theorem scenario_A_counterexample:
  "fst (getDenominationsNeeded 100 (initial (\<lambda>_. ''''))) \<noteq> \<lparr>five = 0, ten = 0, twenty = 5\<rparr>"
  by (simp add: eval_defs)

text \<open>
  C3 as amended: the bundle is four twenties and two tens, and the inventory afterwards
  is five 4, ten 13, twenty 3, with nothing else of the state changed.
\<close>

theorem scenario_A:
  "getDenominationsNeeded 100 (initial page) =
     (\<lparr>five = 0, ten = 2, twenty = 4\<rparr>,
      (initial page)\<lparr>availableNotes := \<lparr>five = 4, ten = 13, twenty = 3\<rparr>\<rparr>)"
  by (simp add: eval_defs)


section \<open>An amount the notes cannot make up\<close>

lemma confirm_withdraw_effect:
  assumes "\<not> loginScreen s" "parseInt (toWithdraw s) = Some a" "a \<le> trueBalance s" "5 dvd a"
    "haveEnoughCash a s"
  shows "toWithdraw (attemptUserInput r s) = ''''"
    and "balance (attemptUserInput r s) = balance s - (a - remainder a (availableNotes s))"
    and "userAmount (attemptUserInput r s) = userAmount s + (a - remainder a (availableNotes s))"
    and "calculateTotalRemainingCash (attemptUserInput r s) =
           calculateTotalRemainingCash s - (a - remainder a (availableNotes s))"
proof -
  have eq: "attemptUserInput r s =
     displayTimedMessage (''Withdrawn: '' @ show_int a)
       (withdrawalMessage ((withdraw a s)\<lparr>toWithdraw := ''''\<rparr>)) ((withdraw a s)\<lparr>toWithdraw := ''''\<rparr>)"
    using assms by (rule confirm_withdraw)
  have cash: "calculateTotalRemainingCash (attemptUserInput r s) = calculateTotalRemainingCash (withdraw a s)"
    by (rule calculateTotalRemainingCash_cong) (simp add: eq)
  have w: "balance (withdraw a s) = balance s - (a - remainder a (availableNotes s))
      \<and> userAmount (withdraw a s) = userAmount s + (a - remainder a (availableNotes s))
      \<and> calculateTotalRemainingCash (withdraw a s) =
           calculateTotalRemainingCash s - (a - remainder a (availableNotes s))"
  proof (cases "0 < a")
    case True
    then have "0 < a \<and> a \<le> balance s + overdraftLimit"
      using assms(3) by (simp add: trueBalance_def)
    then show ?thesis
      using withdraw_effect [of s a] by (auto simp: calculateTotalRemainingCash_def)
  next
    case False
    then have "withdraw a s = s" by (simp add: withdraw_refused)
    moreover from False have "remainder a (availableNotes s) = a" by (simp add: remainder_small)
    ultimately show ?thesis by simp
  qed
  show "toWithdraw (attemptUserInput r s) = ''''" by (simp add: eq)
  show "balance (attemptUserInput r s) = balance s - (a - remainder a (availableNotes s))"
    using w by (simp add: eq)
  show "userAmount (attemptUserInput r s) = userAmount s + (a - remainder a (availableNotes s))"
    using w by (simp add: eq)
  show "calculateTotalRemainingCash (attemptUserInput r s) =
           calculateTotalRemainingCash s - (a - remainder a (availableNotes s))"
    using w cash by simp
qed

text \<open>
  C2. The claim: a confirmed amount that passes the balance, divisibility and cash checks
  but that the notes cannot make up clears the buffer and is reported as a mismatch, not
  as a withdrawal. The driver never learns that the notes fell short: a user who logs in
  on the fresh machine with a balance of 1000 and confirms 275 is shown
  \<open>Withdrawn: 275\<close> and is charged for the 270 that the notes made up.
\<close>

theorem mismatch_signal_counterexample:
  "(let s = run [Enter (Some 1000), Timeout, Digit ''2'', Digit ''7'', Digit ''5'']
              (initial (\<lambda>_. ''''))
    in \<not> loginScreen s \<and> parseInt (toWithdraw s) = Some 275 \<and> 275 \<le> trueBalance s
       \<and> js_rem 275 5 = 0 \<and> haveEnoughCash 275 s \<and> remainder 275 (availableNotes s) = 5
       \<and> textContent (attemptUserInput None s) ''terminal-message'' = ''Withdrawn: 275''
       \<and> balance (attemptUserInput None s) = 730)"
  by (simp add: eval_defs)

text \<open>
  C2 as amended: for a confirmed amount that passes the three checks and that the notes
  cannot make up, the buffer is cleared and the confirmation takes the branch that calls
  \<open>withdraw\<close>: the notes that could be taken leave the machine, and their worth,
  the amount less the remainder, is taken off the balance and added to the user's total.
  None of the three refusals is shown; the program has no message for a mismatch.
\<close>

theorem uncomposable_amount_is_paid_in_part:
  assumes "\<not> loginScreen s" "parseInt (toWithdraw s) = Some a" "a \<le> trueBalance s" "5 dvd a"
    "haveEnoughCash a s" "remainder a (availableNotes s) \<noteq> 0"
  shows "toWithdraw (attemptUserInput r s) = ''''
     \<and> balance (attemptUserInput r s) = balance s - (a - remainder a (availableNotes s))
     \<and> userAmount (attemptUserInput r s) = userAmount s + (a - remainder a (availableNotes s))
     \<and> calculateTotalRemainingCash (attemptUserInput r s) =
         calculateTotalRemainingCash s - (a - remainder a (availableNotes s))
     \<and> (\<not> messageTimerOn s \<longrightarrow>
          textContent (attemptUserInput r s) ''terminal-message'' \<noteq> cantDispense
          \<and> textContent (attemptUserInput r s) ''terminal-message'' \<noteq> ''Not enougth notes present!''
          \<and> textContent (attemptUserInput r s) ''terminal-message'' \<noteq> ''Not enough in Account!'')"
proof -
  note e = confirm_withdraw_effect [OF assms(1-5), of r]
  have eq: "attemptUserInput r s =
     displayTimedMessage (''Withdrawn: '' @ show_int a)
       (withdrawalMessage ((withdraw a s)\<lparr>toWithdraw := ''''\<rparr>)) ((withdraw a s)\<lparr>toWithdraw := ''''\<rparr>)"
    using assms(1-5) by (rule confirm_withdraw)
  have "textContent (attemptUserInput r s) ''terminal-message'' = ''Withdrawn: '' @ show_int a"
    if "\<not> messageTimerOn s"
    unfolding eq using that by (intro displayTimedMessage_shows) simp
  then have "\<not> messageTimerOn s \<longrightarrow>
          textContent (attemptUserInput r s) ''terminal-message'' \<noteq> cantDispense
          \<and> textContent (attemptUserInput r s) ''terminal-message'' \<noteq> ''Not enougth notes present!''
          \<and> textContent (attemptUserInput r s) ''terminal-message'' \<noteq> ''Not enough in Account!''"
    by (simp add: cantDispense_def)
  with e show ?thesis by blast
qed

theorem uncomposable_amount_is_paid_in_part_witness:
  "(let s = (initial (\<lambda>_. ''''))\<lparr>loginScreen := False, balance := 1000, toWithdraw := ''285''\<rparr>
    in \<not> loginScreen s \<and> parseInt (toWithdraw s) = Some 285 \<and> 285 \<le> trueBalance s
       \<and> 5 dvd (285 :: int) \<and> haveEnoughCash 285 s \<and> remainder 285 (availableNotes s) \<noteq> 0
       \<and> \<not> messageTimerOn s
       \<and> toWithdraw (attemptUserInput None s) = ''''
       \<and> balance (attemptUserInput None s) = 720
       \<and> calculateTotalRemainingCash (attemptUserInput None s) = 30
       \<and> textContent (attemptUserInput None s) ''terminal-message'' \<noteq> cantDispense)"
proof -
  define s where "s = (initial (\<lambda>_. ''''))\<lparr>loginScreen := False, balance := 1000, toWithdraw := ''285''\<rparr>"
  have h: "\<not> loginScreen s" "parseInt (toWithdraw s) = Some 285" "285 \<le> trueBalance s"
    "5 dvd (285 :: int)" "haveEnoughCash 285 s"
    by (simp_all add: s_def eval_defs)
  have r: "remainder 285 (availableNotes s) = 5" by (simp add: s_def eval_defs)
  have r0: "remainder 285 (availableNotes s) \<noteq> 0" unfolding r by simp
  have m: "\<not> messageTimerOn s" and b: "balance s = 1000" and c: "calculateTotalRemainingCash s = 310"
    by (simp_all add: s_def eval_defs)
  from uncomposable_amount_is_paid_in_part [OF h r0, of None] m
  have "toWithdraw (attemptUserInput None s) = ''''"
    "balance (attemptUserInput None s) = 720"
    "calculateTotalRemainingCash (attemptUserInput None s) = 30"
    "textContent (attemptUserInput None s) ''terminal-message'' \<noteq> cantDispense"
    unfolding r b c by simp_all
  with h r0 m show ?thesis unfolding s_def Let_def by blast
qed

section \<open>Amounts that are not multiples of five\<close>

text \<open>
  C4. The claim: every confirmed amount that is not a multiple of 5 and is within the
  available balance is answered with the message for a non-divisible amount, whether or
  not the machine holds enough cash. The driver looks at the cash first: a user with a
  balance of 1000 who confirms 311 on the fresh machine, which holds 310, is told that
  there are not enough notes.
\<close>

theorem divisibility_gate_counterexample:
  "(let s = run [Enter (Some 1000), Timeout, Digit ''3'', Digit ''1'', Digit ''1'']
              (initial (\<lambda>_. ''''))
    in \<not> loginScreen s \<and> parseInt (toWithdraw s) = Some 311 \<and> \<not> 5 dvd (311 :: int)
       \<and> js_rem 311 5 \<noteq> 0 \<and> 311 \<le> trueBalance s
       \<and> textContent (attemptUserInput None s) ''terminal-message'' = ''Not enougth notes present!''
       \<and> textContent (attemptUserInput None s) ''terminal-message'' \<noteq> cantDispense)"
  by (simp add: eval_defs)

text \<open>
  C4 as amended: for every confirmed amount that is not a multiple of 5 and does not
  exceed the available balance, the confirmation only clears the buffer and asks for a
  message to be shown, so \<open>withdraw\<close> and the allocator are not called and the
  inventory, the balance and the user's totals stay as they were. The message is the one
  for a non-divisible amount when the machine holds at least that much cash, and the one
  for too little cash otherwise. The message is shown unless another one is showing.
\<close>

theorem non_divisible_amount_is_refused:
  assumes "\<not> loginScreen s" "parseInt (toWithdraw s) = Some a" "\<not> 5 dvd a" "a \<le> trueBalance s"
  shows "attemptUserInput r s =
       displayTimedMessage
         (if haveEnoughCash a s then cantDispense else ''Not enougth notes present!'')
         (withdrawalMessage (s\<lparr>toWithdraw := ''''\<rparr>)) (s\<lparr>toWithdraw := ''''\<rparr>)
     \<and> availableNotes (attemptUserInput r s) = availableNotes s
     \<and> balance (attemptUserInput r s) = balance s
     \<and> userAmount (attemptUserInput r s) = userAmount s
     \<and> userNotes (attemptUserInput r s) = userNotes s
     \<and> (\<not> messageTimerOn s \<longrightarrow>
          textContent (attemptUserInput r s) ''terminal-message'' =
            (if haveEnoughCash a s then cantDispense else ''Not enougth notes present!''))"
proof -
  have eq: "attemptUserInput r s =
       displayTimedMessage
         (if haveEnoughCash a s then cantDispense else ''Not enougth notes present!'')
         (withdrawalMessage (s\<lparr>toWithdraw := ''''\<rparr>)) (s\<lparr>toWithdraw := ''''\<rparr>)"
  proof (cases "haveEnoughCash a s")
    case True
    with confirm_not_divisible [OF assms(1,2,4) True assms(3), of r] show ?thesis by simp
  next
    case False
    with confirm_no_cash [OF assms(1,2,4) False, of r] show ?thesis by simp
  qed
  have "textContent (attemptUserInput r s) ''terminal-message'' =
            (if haveEnoughCash a s then cantDispense else ''Not enougth notes present!'')"
    if "\<not> messageTimerOn s"
    unfolding eq using that by (intro displayTimedMessage_shows) simp
  moreover have "availableNotes (attemptUserInput r s) = availableNotes s"
    "balance (attemptUserInput r s) = balance s"
    "userAmount (attemptUserInput r s) = userAmount s"
    "userNotes (attemptUserInput r s) = userNotes s"
    unfolding eq by simp_all
  ultimately show ?thesis using eq by blast
qed

theorem non_divisible_amount_is_refused_witness:
  "(let s = (initial (\<lambda>_. ''''))\<lparr>loginScreen := False, balance := 50, toWithdraw := ''7''\<rparr>
    in \<not> loginScreen s \<and> parseInt (toWithdraw s) = Some 7 \<and> \<not> 5 dvd (7 :: int)
       \<and> 7 \<le> trueBalance s \<and> \<not> messageTimerOn s
       \<and> availableNotes (attemptUserInput None s) = availableNotes s
       \<and> textContent (attemptUserInput None s) ''terminal-message'' = cantDispense)"
proof -
  define s where "s = (initial (\<lambda>_. ''''))\<lparr>loginScreen := False, balance := 50, toWithdraw := ''7''\<rparr>"
  have h: "\<not> loginScreen s" "parseInt (toWithdraw s) = Some 7" "\<not> 5 dvd (7 :: int)"
    "7 \<le> trueBalance s"
    by (simp_all add: s_def eval_defs)
  have m: "\<not> messageTimerOn s" and c: "haveEnoughCash 7 s"
    by (simp_all add: s_def eval_defs)
  note t = non_divisible_amount_is_refused [OF h, of None]
  from t have "availableNotes (attemptUserInput None s) = availableNotes s" by blast
  moreover from t m have "textContent (attemptUserInput None s) ''terminal-message'' =
      (if haveEnoughCash 7 s then cantDispense else ''Not enougth notes present!'')" by blast
  then have "textContent (attemptUserInput None s) ''terminal-message'' = cantDispense"
    using c by simp
  ultimately show ?thesis using h m unfolding s_def Let_def by blast
qed

section \<open>A buffer that is not a number\<close>

text \<open>
  C6. The claim: confirming a buffer that does not parse as an integer is reported as an
  invalid amount. The program has no such message. \<open>parseInt\<close> gives NaN, the
  comparison with the available balance is false, and the user is told that the account
  does not hold enough: so it is for the empty buffer right after logging in.
\<close>

theorem invalid_amount_counterexample:
  "(let s = run [Enter (Some 1000), Timeout] (initial (\<lambda>_. ''''))
    in \<not> loginScreen s \<and> parseInt (toWithdraw s) = None
       \<and> textContent (attemptUserInput None s) ''terminal-message'' = ''Not enough in Account!'')"
  by (simp add: eval_defs)

text \<open>
  C6 as amended: confirming a buffer that does not parse as an integer clears the buffer
  and asks for the message of an insufficient balance, \<open>Not enough in Account!\<close>,
  which is shown unless another message is showing; the balance, the inventory and the
  user's totals do not change.
\<close>

theorem non_numeric_buffer_is_refused:
  assumes "\<not> loginScreen s" "parseInt (toWithdraw s) = None"
  shows "attemptUserInput r s =
       displayTimedMessage ''Not enough in Account!''
         (withdrawalMessage (s\<lparr>toWithdraw := ''''\<rparr>)) (s\<lparr>toWithdraw := ''''\<rparr>)
     \<and> toWithdraw (attemptUserInput r s) = ''''
     \<and> balance (attemptUserInput r s) = balance s
     \<and> availableNotes (attemptUserInput r s) = availableNotes s
     \<and> userAmount (attemptUserInput r s) = userAmount s
     \<and> userNotes (attemptUserInput r s) = userNotes s
     \<and> (\<not> messageTimerOn s \<longrightarrow>
          textContent (attemptUserInput r s) ''terminal-message'' = ''Not enough in Account!'')"
proof -
  note eq = confirm_NaN [OF assms, of r]
  have "textContent (attemptUserInput r s) ''terminal-message'' = ''Not enough in Account!''"
    if "\<not> messageTimerOn s"
    unfolding eq using that by (intro displayTimedMessage_shows) simp
  moreover have "toWithdraw (attemptUserInput r s) = ''''"
    "balance (attemptUserInput r s) = balance s"
    "availableNotes (attemptUserInput r s) = availableNotes s"
    "userAmount (attemptUserInput r s) = userAmount s"
    "userNotes (attemptUserInput r s) = userNotes s"
    unfolding eq by simp_all
  ultimately show ?thesis using eq by blast
qed

theorem non_numeric_buffer_is_refused_witness:
  "(let s = (initial (\<lambda>_. ''''))\<lparr>loginScreen := False, balance := 50, toWithdraw := ''abc''\<rparr>
    in \<not> loginScreen s \<and> parseInt (toWithdraw s) = None \<and> \<not> messageTimerOn s
       \<and> toWithdraw (attemptUserInput None s) = ''''
       \<and> balance (attemptUserInput None s) = 50
       \<and> textContent (attemptUserInput None s) ''terminal-message'' = ''Not enough in Account!'')"
proof -
  define s where "s = (initial (\<lambda>_. ''''))\<lparr>loginScreen := False, balance := 50, toWithdraw := ''abc''\<rparr>"
  have h: "\<not> loginScreen s" "parseInt (toWithdraw s) = None"
    by (simp_all add: s_def eval_defs)
  have m: "\<not> messageTimerOn s" and b: "balance s = 50"
    by (simp_all add: s_def eval_defs)
  note t = non_numeric_buffer_is_refused [OF h, of None]
  from t have "toWithdraw (attemptUserInput None s) = ''''" by blast
  moreover from t have "balance (attemptUserInput None s) = balance s" by blast
  then have "balance (attemptUserInput None s) = 50" unfolding b .
  moreover from t m
  have "textContent (attemptUserInput None s) ''terminal-message'' = ''Not enough in Account!''"
    by blast
  ultimately show ?thesis using h m unfolding s_def Let_def by blast
qed


section \<open>Conservation of cash\<close>

lemma withdrawals_conserve:
  "successfulWithdrawals as s \<Longrightarrow>
   calculateTotalRemainingCash s - calculateTotalRemainingCash (fold withdraw as s) = sum_list as
   \<and> userAmount (fold withdraw as s) - userAmount s = sum_list as"
proof (induction as arbitrary: s)
  case Nil
  show ?case by simp
next
  case (Cons a as)
  from Cons.prems have g: "0 < a" "a \<le> trueBalance s" and r: "remainder a (availableNotes s) = 0"
    and rest: "successfulWithdrawals as (withdraw a s)"
    by simp_all
  have u: "userAmount (withdraw a s) = userAmount s + a"
    using withdraw_composed [OF g] r by simp
  have c: "calculateTotalRemainingCash s - calculateTotalRemainingCash (withdraw a s) = a"
    using withdraw_conserves [of s a] u by simp
  from Cons.IH [OF rest] u c show ?case by simp
qed

lemma withdrawals_hand_over_what_leaves:
  "calculateTotalRemainingCash s - calculateTotalRemainingCash (fold withdraw as s)
     = userAmount (fold withdraw as s) - userAmount s"
proof (induction as arbitrary: s)
  case Nil
  show ?case by simp
next
  case (Cons a as)
  from Cons.IH [of "withdraw a s"] withdraw_conserves [of s a] show ?case by simp
qed

lemma step_conserves:
  "calculateTotalRemainingCash (step e s) + userAmount (step e s)
     = calculateTotalRemainingCash s + userAmount s"
proof (cases e)
  case (Digit digit)
  then show ?thesis
    by (auto simp: calculateTotalRemainingCash_def inputManager_def pinInserter_def
        withdrawalInserter_def Let_def)
next
  case Delete
  then show ?thesis by (auto simp: calculateTotalRemainingCash_def digitRemover_def Let_def)
next
  case (Enter r)
  show ?thesis
  proof (cases "loginScreen s")
    case True
    from login_shape [OF True, of r] show ?thesis using Enter
      by (auto simp: calculateTotalRemainingCash_def)
  next
    case False
    from confirm_shape [OF False, of r] obtain a m d where
      eq: "attemptUserInput r s = displayTimedMessage m d ((withdraw a s)\<lparr>toWithdraw := ''''\<rparr>)"
      by blast
    have "calculateTotalRemainingCash (attemptUserInput r s) = calculateTotalRemainingCash (withdraw a s)"
      by (rule calculateTotalRemainingCash_cong) (simp add: eq)
    moreover have "userAmount (attemptUserInput r s) = userAmount (withdraw a s)"
      by (simp add: eq)
    ultimately show ?thesis using withdraw_conserves [of s a] Enter by simp
  qed
next
  case Timeout
  then show ?thesis by (simp add: calculateTotalRemainingCash_def)
qed

lemma reachable_conserves:
  "reachable s \<Longrightarrow>
   calculateTotalRemainingCash s + userAmount s = calculateTotalRemainingCash (initial page)"
proof (induction rule: reachable.induct)
  case (start page')
  show ?case by (simp add: initial_def calculateTotalRemainingCash_def)
next
  case (next_event s e)
  then show ?case using step_conserves [of e s] by simp
qed

text \<open>
  C5. Withdrawals are calls of \<open>withdraw\<close>, and a withdrawal is successful when the
  call passes the guard of \<open>withdraw\<close> and the notes chosen make up the whole amount,
  so that the amount is what is dispensed. For every such sequence begun with the stock
  of the fresh machine, the worth of that stock less the cash then in the machine is the
  sum of the amounts, and the user's total grows by the same sum. What leaves the
  machine is what the user is handed in any case: over any sequence of calls the cash in
  the machine falls by what the user's total gains, and in every reachable state of the
  machine the worth of the first stock less the cash in the machine is the user's total.
\<close>

theorem cash_is_conserved:
  "(availableNotes s = availableNotes (initial page) \<and> successfulWithdrawals as s \<longrightarrow>
      calculateTotalRemainingCash (initial page)
        - calculateTotalRemainingCash (fold withdraw as s) = sum_list as
      \<and> userAmount (fold withdraw as s) - userAmount s = sum_list as)
   \<and> calculateTotalRemainingCash s - calculateTotalRemainingCash (fold withdraw as s)
        = userAmount (fold withdraw as s) - userAmount s
   \<and> (reachable t \<longrightarrow>
        calculateTotalRemainingCash (initial page) - calculateTotalRemainingCash t = userAmount t)"
proof -
  have "calculateTotalRemainingCash (initial page)
        - calculateTotalRemainingCash (fold withdraw as s) = sum_list as
      \<and> userAmount (fold withdraw as s) - userAmount s = sum_list as"
    if "availableNotes s = availableNotes (initial page)" "successfulWithdrawals as s"
  proof -
    have "calculateTotalRemainingCash (initial page) = calculateTotalRemainingCash s"
      using that(1) by (simp add: calculateTotalRemainingCash_def)
    with withdrawals_conserve [OF that(2)] show ?thesis by simp
  qed
  moreover have "calculateTotalRemainingCash (initial page) - calculateTotalRemainingCash t = userAmount t"
    if "reachable t"
    using reachable_conserves [OF that, of page] by simp
  ultimately show ?thesis using withdrawals_hand_over_what_leaves [of s as] by blast
qed

theorem cash_is_conserved_witness:
  "(let s = (initial (\<lambda>_. ''''))\<lparr>loginScreen := False, balance := 1000\<rparr>;
        t = run [Enter (Some 155), Timeout, Digit ''1'', Digit ''0'', Digit ''5'', Enter None]
              (initial (\<lambda>_. ''''))
    in availableNotes s = availableNotes (initial (\<lambda>_. ''''))
       \<and> successfulWithdrawals [100, 5, 140] s
       \<and> reachable t
       \<and> calculateTotalRemainingCash (initial (\<lambda>_. ''''))
           - calculateTotalRemainingCash (fold withdraw [100, 5, 140] s) = 245
       \<and> calculateTotalRemainingCash (initial (\<lambda>_. '''')) - calculateTotalRemainingCash t = 105)"
proof -
  define s where "s = (initial (\<lambda>_. ''''))\<lparr>loginScreen := False, balance := 1000\<rparr>"
  define t where "t = run [Enter (Some 155), Timeout, Digit ''1'', Digit ''0'', Digit ''5'', Enter None]
              (initial (\<lambda>_. ''''))"
  have h1: "availableNotes s = availableNotes (initial (\<lambda>_. ''''))"
    by (simp add: s_def initial_def)
  have h2: "successfulWithdrawals [100, 5, 140] s"
    by (simp add: s_def eval_defs)
  have h3: "reachable t" unfolding t_def by (intro reachable_run reachable.start)
  have u: "userAmount t = 105" by (simp add: t_def eval_defs)
  note c = cash_is_conserved [of s "\<lambda>_. ''''" "[100, 5, 140]" t]
  from c h1 h2
  have "calculateTotalRemainingCash (initial (\<lambda>_. ''''))
           - calculateTotalRemainingCash (fold withdraw [100, 5, 140] s) = sum_list [100, 5, 140]"
    by blast
  then have "calculateTotalRemainingCash (initial (\<lambda>_. ''''))
           - calculateTotalRemainingCash (fold withdraw [100, 5, 140] s) = 245"
    by simp
  moreover from c h3
  have "calculateTotalRemainingCash (initial (\<lambda>_. '''')) - calculateTotalRemainingCash t = userAmount t"
    by blast
  then have "calculateTotalRemainingCash (initial (\<lambda>_. '''')) - calculateTotalRemainingCash t = 105"
    unfolding u .
  ultimately show ?thesis using h1 h2 h3 unfolding s_def t_def Let_def by blast
qed

section \<open>The two buffers\<close>

text \<open>
  C7. In every reachable state the PIN holds at most 4 characters and the amount at most
  5. When the buffer of the current screen is full, a digit leaves both buffers as they
  are and asks for the message \<open>No more can be inserted!!\<close>, which is shown unless
  another message is showing.
\<close>

theorem buffers_are_capped:
  assumes "reachable s"
  shows "length (pin s) \<le> 4 \<and> length (toWithdraw s) \<le> 5
     \<and> ((if loginScreen s then length (pin s) = 4 else length (toWithdraw s) = 5) \<longrightarrow>
          inputManager digit s =
            displayTimedMessage insertionError
              (if loginScreen s then pinMessage s else withdrawalMessage s) s
          \<and> pin (inputManager digit s) = pin s
          \<and> toWithdraw (inputManager digit s) = toWithdraw s
          \<and> (\<not> messageTimerOn s \<longrightarrow>
               textContent (inputManager digit s) ''terminal-message'' = insertionError))"
proof -
  have "inputManager digit s =
            displayTimedMessage insertionError
              (if loginScreen s then pinMessage s else withdrawalMessage s) s"
    if "if loginScreen s then length (pin s) = 4 else length (toWithdraw s) = 5"
    using that by (auto simp: inputManager_def pinInserter_def withdrawalInserter_def)
  moreover have "pin (displayTimedMessage insertionError m s) = pin s"
    "toWithdraw (displayTimedMessage insertionError m s) = toWithdraw s"
    "\<not> messageTimerOn s \<longrightarrow>
       textContent (displayTimedMessage insertionError m s) ''terminal-message'' = insertionError"
    for m
    by (simp_all add: displayTimedMessage_shows)
  ultimately show ?thesis using reachable_buffers [OF assms] by auto
qed

theorem buffers_are_capped_witness:
  "(let s = run [Digit ''1'', Digit ''2'', Digit ''3'', Digit ''4''] (initial (\<lambda>_. ''''))
    in reachable s \<and> (if loginScreen s then length (pin s) = 4 else length (toWithdraw s) = 5)
       \<and> \<not> messageTimerOn s
       \<and> pin (inputManager ''5'' s) = ''1234''
       \<and> textContent (inputManager ''5'' s) ''terminal-message'' = insertionError)"
proof -
  define s where "s = run [Digit ''1'', Digit ''2'', Digit ''3'', Digit ''4''] (initial (\<lambda>_. ''''))"
  have h1: "reachable s" unfolding s_def by (intro reachable_run reachable.start)
  have h2: "if loginScreen s then length (pin s) = 4 else length (toWithdraw s) = 5"
    and m: "\<not> messageTimerOn s" and p: "pin s = ''1234''"
    by (simp_all add: s_def eval_defs)
  note t = buffers_are_capped [OF h1, of "''5''"]
  from t h2 have "pin (inputManager ''5'' s) = pin s" by blast
  then have "pin (inputManager ''5'' s) = ''1234''" unfolding p .
  moreover from t h2 m
  have "textContent (inputManager ''5'' s) ''terminal-message'' = insertionError" by blast
  ultimately show ?thesis using h1 h2 m unfolding s_def Let_def by blast
qed

section \<open>The user's total and the user's notes\<close>

text \<open>
  C9. The user's total is the worth of the user's notes: every event keeps the equation,
  from whatever state, and it holds in every reachable state.
\<close>

theorem user_total_is_worth_of_user_notes:
  "(userAmount s = notesValue (userNotes s) \<longrightarrow>
      userAmount (step e s) = notesValue (userNotes (step e s)))
   \<and> (reachable s \<longrightarrow>
        userAmount s = 5 * five (userNotes s) + 10 * ten (userNotes s) + 20 * twenty (userNotes s))"
proof -
  have "userAmount s = 5 * five (userNotes s) + 10 * ten (userNotes s) + 20 * twenty (userNotes s)"
    if "reachable s"
    using reachable_stats [OF that] by (simp add: notesValue_def)
  then show ?thesis using step_stats [of s e] by blast
qed

theorem user_total_is_worth_of_user_notes_witness:
  "(let s = run [Enter (Some 155), Timeout, Digit ''1'', Digit ''0'', Digit ''5'', Enter None]
              (initial (\<lambda>_. ''''))
    in reachable s \<and> userAmount s = notesValue (userNotes s) \<and> userAmount s = 105
       \<and> userAmount (step (Enter None) s) = notesValue (userNotes (step (Enter None) s)))"
proof -
  define s where "s = run [Enter (Some 155), Timeout, Digit ''1'', Digit ''0'', Digit ''5'', Enter None]
              (initial (\<lambda>_. ''''))"
  have h1: "reachable s" unfolding s_def by (intro reachable_run reachable.start)
  have h2: "userAmount s = notesValue (userNotes s)" and u: "userAmount s = 105"
    by (simp_all add: s_def eval_defs)
  from user_total_is_worth_of_user_notes [of s "Enter None"] h2
  have "userAmount (step (Enter None) s) = notesValue (userNotes (step (Enter None) s))"
    by blast
  with h1 h2 u show ?thesis unfolding s_def Let_def by blast
qed

section \<open>Confirming zero\<close>

text \<open>
  C10. In a reachable state on the withdrawal screen, with an available balance that is
  not negative, confirming a buffer that reads as 0 clears the buffer and asks for the
  message \<open>Withdrawn: 0\<close>, shown unless another message is showing. The state handed
  to the display is the old one with the buffer emptied: \<open>withdraw\<close> changes nothing
  for an amount that is not positive, so the balance, the notes in the machine, the
  user's total and the user's notes are as before.
\<close>

theorem confirming_zero_changes_nothing:
  assumes "reachable s" "\<not> loginScreen s" "parseInt (toWithdraw s) = Some 0" "0 \<le> trueBalance s"
  shows "attemptUserInput r s =
       displayTimedMessage ''Withdrawn: 0''
         (withdrawalMessage (s\<lparr>toWithdraw := ''''\<rparr>)) (s\<lparr>toWithdraw := ''''\<rparr>)
     \<and> withdraw 0 s = s
     \<and> toWithdraw (attemptUserInput r s) = ''''
     \<and> balance (attemptUserInput r s) = balance s
     \<and> availableNotes (attemptUserInput r s) = availableNotes s
     \<and> userAmount (attemptUserInput r s) = userAmount s
     \<and> userNotes (attemptUserInput r s) = userNotes s
     \<and> (\<not> messageTimerOn s \<longrightarrow>
          textContent (attemptUserInput r s) ''terminal-message'' = ''Withdrawn: 0'')"
proof -
  have cash: "haveEnoughCash 0 s"
    using reachable_nonneg [OF assms(1)]
    by (simp add: haveEnoughCash_def calculateTotalRemainingCash_def)
  have w: "withdraw 0 s = s" by (simp add: withdraw_refused)
  have sh: "show_int 0 = ''0''" by (simp add: show_int_def show_digits.simps)
  have eq: "attemptUserInput r s =
       displayTimedMessage ''Withdrawn: 0''
         (withdrawalMessage (s\<lparr>toWithdraw := ''''\<rparr>)) (s\<lparr>toWithdraw := ''''\<rparr>)"
    using confirm_withdraw [OF assms(2,3,4) _ cash, of r] by (simp add: w sh)
  have "textContent (attemptUserInput r s) ''terminal-message'' = ''Withdrawn: 0''"
    if "\<not> messageTimerOn s"
    unfolding eq using that by (intro displayTimedMessage_shows) simp
  moreover have "toWithdraw (attemptUserInput r s) = ''''"
    "balance (attemptUserInput r s) = balance s"
    "availableNotes (attemptUserInput r s) = availableNotes s"
    "userAmount (attemptUserInput r s) = userAmount s"
    "userNotes (attemptUserInput r s) = userNotes s"
    unfolding eq by simp_all
  ultimately show ?thesis using eq w by blast
qed

theorem confirming_zero_changes_nothing_witness:
  "(let s = run [Enter (Some 0), Timeout, Digit ''0''] (initial (\<lambda>_. ''''))
    in reachable s \<and> \<not> loginScreen s \<and> parseInt (toWithdraw s) = Some 0 \<and> 0 \<le> trueBalance s
       \<and> \<not> messageTimerOn s
       \<and> toWithdraw (attemptUserInput None s) = ''''
       \<and> availableNotes (attemptUserInput None s) = \<lparr>five = 4, ten = 15, twenty = 7\<rparr>
       \<and> textContent (attemptUserInput None s) ''terminal-message'' = ''Withdrawn: 0'')"
proof -
  define s where "s = run [Enter (Some 0), Timeout, Digit ''0''] (initial (\<lambda>_. ''''))"
  have h1: "reachable s" unfolding s_def by (intro reachable_run reachable.start)
  have h: "\<not> loginScreen s" "parseInt (toWithdraw s) = Some 0" "0 \<le> trueBalance s"
    and m: "\<not> messageTimerOn s" and av: "availableNotes s = \<lparr>five = 4, ten = 15, twenty = 7\<rparr>"
    by (simp_all add: s_def eval_defs)
  note t = confirming_zero_changes_nothing [OF h1 h, of None]
  from t have "toWithdraw (attemptUserInput None s) = ''''" by blast
  moreover from t have "availableNotes (attemptUserInput None s) = availableNotes s" by blast
  then have "availableNotes (attemptUserInput None s) = \<lparr>five = 4, ten = 15, twenty = 7\<rparr>"
    unfolding av .
  moreover from t m
  have "textContent (attemptUserInput None s) ''terminal-message'' = ''Withdrawn: 0''" by blast
  ultimately show ?thesis using h1 h m unfolding s_def Let_def by blast
qed

section \<open>Scenario D\<close>

text \<open>
  C8. With a balance of 50 the available balance is 150, and a confirmed 140 passes the
  three checks whenever the machine holds 140 in cash. The claim goes on: the balance is
  then \<open>-90\<close>. The session below logs in with 155 and withdraws 105, which leaves a
  balance of 50 and the stock five 3, ten 15, twenty 2, worth 205. Confirming 140 there,
  the first pass takes two twenties, seven tens and three fives, the second pass one more
  ten, and 5 is left that no note can make up although fourteen tens would have done.
  The display reads \<open>Withdrawn: 140\<close>, 135 is paid out and the balance is \<open>-85\<close>.
\<close>

theorem scenario_D_short_payment:
  "(let s = run [Enter (Some 155), Timeout, Digit ''1'', Digit ''0'', Digit ''5'', Enter None,
                 Timeout, Digit ''1'', Digit ''4'', Digit ''0''] (initial (\<lambda>_. ''''))
    in \<not> loginScreen s \<and> balance s = 50 \<and> trueBalance s = 150
       \<and> parseInt (toWithdraw s) = Some 140 \<and> js_rem 140 5 = 0 \<and> haveEnoughCash 140 s
       \<and> availableNotes s = \<lparr>five = 3, ten = 15, twenty = 2\<rparr>
       \<and> textContent (attemptUserInput None s) ''terminal-message'' = ''Withdrawn: 140''
       \<and> userAmount (attemptUserInput None s) - userAmount s = 135
       \<and> availableNotes (attemptUserInput None s) = \<lparr>five = 0, ten = 7, twenty = 0\<rparr>
       \<and> balance (attemptUserInput None s) = - 85)"
proof -
  define s where "s = run [Enter (Some 155), Timeout, Digit ''1'', Digit ''0'', Digit ''5'', Enter None,
                 Timeout, Digit ''1'', Digit ''4'', Digit ''0''] (initial (\<lambda>_. ''''))"
  have l: "\<not> loginScreen s" by (simp add: s_def eval_defs)
  have m: "\<not> messageTimerOn s" by (simp add: s_def eval_defs)
  have t: "toWithdraw s = ''140''" by (simp add: s_def eval_defs)
  have b: "balance s = 50" by (simp add: s_def eval_defs)
  have u: "userAmount s = 105" by (simp add: s_def eval_defs)
  have av: "availableNotes s = \<lparr>five = 3, ten = 15, twenty = 2\<rparr>" by (simp add: s_def eval_defs)
  have p: "parseInt (toWithdraw s) = Some 140" unfolding t by (simp add: eval_defs)
  have tb: "trueBalance s = 150" by (simp add: trueBalance_def overdraftLimit_def b)
  have d: "js_rem 140 5 = 0" by (simp add: js_rem_def)
  have c: "haveEnoughCash 140 s" by (simp add: haveEnoughCash_def calculateTotalRemainingCash_def av)
  have al: "allocate 140 \<lparr>five = 3, ten = 15, twenty = 2\<rparr> = (5, [0, 7, 0], [2, 8, 3])"
    by (simp add: eval_defs)
  have sh: "show_int 140 = ''140''" by (simp add: show_int_def show_digits.simps)
  have eq: "attemptUserInput None s =
     displayTimedMessage ''Withdrawn: 140''
       (withdrawalMessage ((withdraw 140 s)\<lparr>toWithdraw := ''''\<rparr>)) ((withdraw 140 s)\<lparr>toWithdraw := ''''\<rparr>)"
    using confirm_withdraw [OF l p _ _ c, of None] by (simp add: tb sh)
  have w: "userAmount (withdraw 140 s) = 240" "balance (withdraw 140 s) = - 85"
    "availableNotes (withdraw 140 s) = \<lparr>five = 0, ten = 7, twenty = 0\<rparr>"
    by (simp_all add: withdraw_def getDenominationsNeeded_def av al b u updateUserStats_def
        updateStatsPanel_def overdraftLimit_def)
  have "textContent (attemptUserInput None s) ''terminal-message'' = ''Withdrawn: 140''"
    unfolding eq using m by (intro displayTimedMessage_shows) simp
  moreover have "userAmount (attemptUserInput None s) - userAmount s = 135"
    "availableNotes (attemptUserInput None s) = \<lparr>five = 0, ten = 7, twenty = 0\<rparr>"
    "balance (attemptUserInput None s) = - 85"
    unfolding eq by (simp_all add: w u)
  ultimately show ?thesis using l b tb p d c av unfolding s_def Let_def by blast
qed

end
